theory Spec2Isabelle
  imports Main
begin

section \<open>JavaScript values\<close>

text \<open>
  The utilities of \<^verbatim>\<open>packages/git/src/common/git.ts\<close> take arguments of type
  \<^verbatim>\<open>any | undefined\<close>, so the model needs the values of the language, not only the
  option records. A value is a primitive or an object. Of an object the functions below
  observe two things only:
  \<^item> \<open>proto_chain\<close>: the names of the constructors whose \<^verbatim>\<open>prototype\<close> lies on the
    object's prototype chain, nearest first (\<^verbatim>\<open>new Error()\<close> has \<open>[''Error'', ''Object'']\<close>,
    an object literal has \<open>[''Object'']\<close>); this is what \<^verbatim>\<open>instanceof\<close> reads;
  \<^item> \<open>props\<close>: the data properties that \<^verbatim>\<open>in\<close> and a property read reach, own ones
    first and inherited ones after them; a read takes the first entry of a key.

  Numbers are kept as integers with \<open>JNaN\<close> apart: only their truthiness matters here, and a
  fractional number is truthy like any non-zero integer. Accessor properties and proxies
  (which can run code on \<^verbatim>\<open>in\<close>) are outside the model.
\<close>

datatype js_value =
    JUndefined
  | JNull
  | JBoolean bool
  | JNumber int
  | JNaN
  | JString string
  | JObject js_object
and js_object =
    JObj (proto_chain: "string list") (props: "(string \<times> js_value) list")

datatype js_error = TypeError

text \<open>\<^verbatim>\<open>!!arg\<close>: the conversion to a boolean.\<close>

fun ToBoolean :: "js_value \<Rightarrow> bool" where
  "ToBoolean JUndefined = False"
| "ToBoolean JNull = False"
| "ToBoolean (JBoolean b) = b"
| "ToBoolean (JNumber n) = (n \<noteq> 0)"
| "ToBoolean JNaN = False"
| "ToBoolean (JString s) = (s \<noteq> [])"
| "ToBoolean (JObject ob) = True"

text \<open>
  \<^verbatim>\<open>key in arg\<close>: the right operand must be an object, otherwise the operator throws a
  \<^verbatim>\<open>TypeError\<close>.
\<close>

fun js_in :: "string \<Rightarrow> js_value \<Rightarrow> js_error + bool" where
  "js_in k (JObject ob) = Inr (k \<in> set (map fst (props ob)))"
| "js_in k v = Inl TypeError"

text \<open>\<^verbatim>\<open>arg instanceof Error\<close>: false for every primitive.\<close>

fun instanceof_Error :: "js_value \<Rightarrow> bool" where
  "instanceof_Error (JObject ob) = (''Error'' \<in> set (proto_chain ob))"
| "instanceof_Error v = False"

text \<open>
  \<^verbatim>\<open>arg.key\<close>: reading a property of \<^verbatim>\<open>undefined\<close> or \<^verbatim>\<open>null\<close> throws; an object
  gives the property's value, or \<^verbatim>\<open>undefined\<close> when it has none. The other primitives
  are boxed first; none of the keys read in this file is a property of their wrappers.
\<close>

fun js_get :: "js_value \<Rightarrow> string \<Rightarrow> js_error + js_value" where
  "js_get JUndefined k = Inl TypeError"
| "js_get JNull k = Inl TypeError"
| "js_get (JObject ob) k =
     Inr (case map_of (props ob) k of None \<Rightarrow> JUndefined | Some v \<Rightarrow> v)"
| "js_get v k = Inr JUndefined"

text \<open>\<^verbatim>\<open>v === s\<close> for a string literal \<open>s\<close>: true for that very primitive string only.\<close>

fun strict_equals_string :: "js_value \<Rightarrow> string \<Rightarrow> bool" where
  "strict_equals_string (JString t) s = (t = s)"
| "strict_equals_string v s = False"

section \<open>GitUtils: the type guards\<close>

text \<open>
  Each guard is \<^verbatim>\<open>return !!arg && ('key' in arg);\<close>. The conjunction is lazy: a falsy
  argument gives \<^verbatim>\<open>false\<close> without evaluating \<^verbatim>\<open>in\<close>.
\<close>

definition isBranchRename :: "js_value \<Rightarrow> js_error + bool" where
  "isBranchRename arg = (if ToBoolean arg then js_in ''newName'' arg else Inr False)"

definition isBranchDelete :: "js_value \<Rightarrow> js_error + bool" where
  "isBranchDelete arg = (if ToBoolean arg then js_in ''toDelete'' arg else Inr False)"

definition isBranchCreate :: "js_value \<Rightarrow> js_error + bool" where
  "isBranchCreate arg = (if ToBoolean arg then js_in ''toCreate'' arg else Inr False)"

definition isBranchList :: "js_value \<Rightarrow> js_error + bool" where
  "isBranchList arg = (if ToBoolean arg then js_in ''type'' arg else Inr False)"

definition isBranchCheckout :: "js_value \<Rightarrow> js_error + bool" where
  "isBranchCheckout arg = (if ToBoolean arg then js_in ''branch'' arg else Inr False)"

definition isWorkingTreeFileCheckout :: "js_value \<Rightarrow> js_error + bool" where
  "isWorkingTreeFileCheckout arg = (if ToBoolean arg then js_in ''paths'' arg else Inr False)"

text \<open>The six guards, each with the key it looks for, in the order of the source.\<close>

definition guards :: "(string \<times> (js_value \<Rightarrow> js_error + bool)) list" where
  "guards =
     [(''newName'', isBranchRename), (''toDelete'', isBranchDelete),
      (''toCreate'', isBranchCreate), (''type'', isBranchList),
      (''branch'', isBranchCheckout), (''paths'', isWorkingTreeFileCheckout)]"

text \<open>The keys of the guards that return \<^verbatim>\<open>true\<close> on an argument.\<close>

definition accepting :: "js_value \<Rightarrow> string list" where
  "accepting arg = map fst (filter (\<lambda>(k, g). g arg = Inr True) guards)"

text \<open>
  What "the argument contains the key" means for a value, written without the operator:
  an object with that key among its properties; a primitive contains nothing.
\<close>

fun contains_key :: "js_value \<Rightarrow> string \<Rightarrow> bool" where
  "contains_key (JObject ob) k = (k \<in> fst ` set (props ob))"
| "contains_key v k = False"

text \<open>
  \<^verbatim>\<open>Git.Options.Merge\<close> is the interface \<^verbatim>\<open>{ readonly branch: string }\<close>. A value conforms
  to it when it is an object whose \<^verbatim>\<open>branch\<close> property is a string; the interface puts no
  bound on the other properties of the object.
\<close>

fun conforms_to_Merge :: "js_value \<Rightarrow> bool" where
  "conforms_to_Merge (JObject ob) =
     (case map_of (props ob) ''branch'' of Some (JString b) \<Rightarrow> True | _ \<Rightarrow> False)"
| "conforms_to_Merge v = False"

section \<open>GitUtils: recognising the missing repository\<close>

definition RepositoryDoesNotExistErrorCode :: string where
  "RepositoryDoesNotExistErrorCode = ''repository-does-not-exist-error''"

text \<open>
  \<^verbatim>\<open>if (error instanceof Error && ('code' in error)) { return error.code === Code; } return false;\<close>
  Each operator that can throw is a branch of the model.
\<close>

definition isRepositoryDoesNotExistError :: "js_value \<Rightarrow> js_error + bool" where
  "isRepositoryDoesNotExistError error =
     (if instanceof_Error error then
        (case js_in ''code'' error of
           Inl e \<Rightarrow> Inl e
         | Inr has_code \<Rightarrow>
             if has_code then
               (case js_get error ''code'' of
                  Inl e \<Rightarrow> Inl e
                | Inr c \<Rightarrow> Inr (strict_equals_string c RepositoryDoesNotExistErrorCode))
             else Inr False)
      else Inr False)"

text \<open>
  The description to compare with: an \<^verbatim>\<open>Error\<close> instance that has a \<^verbatim>\<open>code\<close>
  property equal to the string \<^verbatim>\<open>'repository-does-not-exist-error'\<close>.
\<close>

fun is_Error_with_code :: "js_value \<Rightarrow> bool" where
  "is_Error_with_code (JObject ob) =
     (''Error'' \<in> set (proto_chain ob) \<and>
      map_of (props ob) ''code'' = Some (JString ''repository-does-not-exist-error''))"
| "is_Error_with_code v = False"

lemma map_of_eq_Some_in_keys: "map_of ps k = Some v \<Longrightarrow> k \<in> fst ` set ps"
  by (induction ps) (auto split: if_splits)

lemma guard_returns_true_iff:
  "((if ToBoolean arg then js_in k arg else Inr False) = Inr True) =
     (ToBoolean arg \<and> contains_key arg k)"
  by (cases arg) auto

lemma accepting_object:
  "accepting (JObject ob) = filter (\<lambda>k. k \<in> fst ` set (props ob)) (map fst guards)"
  by (simp add: accepting_def guards_def isBranchRename_def isBranchDelete_def
      isBranchCreate_def isBranchList_def isBranchCheckout_def isWorkingTreeFileCheckout_def)

lemma distinct_guard_keys: "distinct (map fst guards)"
  by (simp add: guards_def)

lemma two_keys_two_guards:
  assumes "k1 \<in> set (map fst guards)" and "k2 \<in> set (map fst guards)" and "k1 \<noteq> k2"
    and "contains_key (JObject ob) k1" and "contains_key (JObject ob) k2"
  shows "2 \<le> length (accepting (JObject ob))"
proof -
  let ?ks = "accepting (JObject ob)"
  have d: "distinct ?ks"
    unfolding accepting_object using distinct_guard_keys by (rule distinct_filter)
  have "{k1, k2} \<subseteq> set ?ks"
    using assms by (simp add: accepting_object)
  then have "card {k1, k2} \<le> card (set ?ks)"
    by (intro card_mono) auto
  with assms(3) d show ?thesis
    by (simp add: distinct_card)
qed

lemma Merge_value_isBranchCheckout:
  assumes "conforms_to_Merge v"
  shows "isBranchCheckout v = Inr True"
proof (cases v)
  case (JObject ob)
  with assms obtain x where "map_of (props ob) ''branch'' = Some x"
    by (auto split: option.splits)
  then have "''branch'' \<in> fst ` set (props ob)"
    by (rule map_of_eq_Some_in_keys)
  with JObject show ?thesis
    by (simp add: isBranchCheckout_def)
qed (use assms in simp_all)

lemma isRepositoryDoesNotExistError_value:
  "isRepositoryDoesNotExistError e = Inr (is_Error_with_code e)"
proof (cases e)
  case (JObject ob)
  show ?thesis
  proof (cases "map_of (props ob) ''code''")
    case None
    then have "''code'' \<notin> set (map fst (props ob))"
      by (simp add: map_of_eq_None_iff)
    with None JObject show ?thesis
      by (simp add: isRepositoryDoesNotExistError_def)
  next
    case (Some c)
    then have "''code'' \<in> set (map fst (props ob))"
      using map_of_eq_Some_in_keys by fastforce
    with Some JObject show ?thesis
      by (cases c)
        (auto simp: isRepositoryDoesNotExistError_def RepositoryDoesNotExistErrorCode_def)
  qed
qed (simp_all add: isRepositoryDoesNotExistError_def)

text \<open>
  Claim C9. \<^verbatim>\<open>GitUtils.isRepositoryDoesNotExistError(e)\<close> never throws, and it returns
  \<^verbatim>\<open>true\<close> if and only if \<open>e\<close> is an \<^verbatim>\<open>Error\<close> instance that has a \<^verbatim>\<open>code\<close> property
  equal to the string \<^verbatim>\<open>'repository-does-not-exist-error'\<close>. For every other value it
  returns \<^verbatim>\<open>false\<close>: for \<^verbatim>\<open>undefined\<close>, for \<^verbatim>\<open>null\<close>, and for an object that carries
  the code but has no \<^verbatim>\<open>Error.prototype\<close> on its chain (the third conjunct gives the result
  for any object: it is \<^verbatim>\<open>true\<close> only with \<open>''Error''\<close> in the chain).
\<close>

theorem isRepositoryDoesNotExistError_iff:
  "isRepositoryDoesNotExistError e = Inr (is_Error_with_code e)
   \<and> isRepositoryDoesNotExistError JUndefined = Inr False
   \<and> isRepositoryDoesNotExistError JNull = Inr False
   \<and> isRepositoryDoesNotExistError (JObject (JObj chain ps)) =
       Inr (''Error'' \<in> set chain \<and>
            map_of ps ''code'' = Some (JString RepositoryDoesNotExistErrorCode))
   \<and> isRepositoryDoesNotExistError
        (JObject (JObj [''Object''] [(''code'', JString RepositoryDoesNotExistErrorCode)])) =
       Inr False"
  by (simp add: isRepositoryDoesNotExistError_value RepositoryDoesNotExistErrorCode_def)

theorem isRepositoryDoesNotExistError_iff_witness:
  "isRepositoryDoesNotExistError
     (JObject (JObj [''Error'', ''Object'']
        [(''message'', JString ''no repository''),
         (''code'', JString ''repository-does-not-exist-error'')])) = Inr True
   \<and> isRepositoryDoesNotExistError
     (JObject (JObj [''Error'', ''Object''] [(''code'', JString ''ENOENT'')])) = Inr False"
  using isRepositoryDoesNotExistError_iff
      [of "JObject (JObj [''Error'', ''Object'']
             [(''message'', JString ''no repository''),
              (''code'', JString ''repository-does-not-exist-error'')])" "[]" "[]"]
    isRepositoryDoesNotExistError_iff
      [of "JObject (JObj [''Error'', ''Object''] [(''code'', JString ''ENOENT'')])" "[]" "[]"]
  by simp

text \<open>
  Claim C10. Each type guard of \<^verbatim>\<open>GitUtils\<close> returns \<^verbatim>\<open>true\<close> exactly when its argument
  is truthy and contains the guard's one key (\<^verbatim>\<open>newName\<close>, \<^verbatim>\<open>toDelete\<close>, \<^verbatim>\<open>toCreate\<close>,
  \<^verbatim>\<open>type\<close>, \<^verbatim>\<open>branch\<close>, \<^verbatim>\<open>paths\<close>), and returns \<^verbatim>\<open>false\<close> for \<^verbatim>\<open>undefined\<close>. So the
  guards do not partition the option values: for some input more than one guard returns
  \<^verbatim>\<open>true\<close>. Every object that carries two of the six keys is such an input; and every
  \<^verbatim>\<open>Git.Options.Merge\<close> value, which has \<^verbatim>\<open>branch\<close>, satisfies \<^verbatim>\<open>isBranchCheckout\<close>, the guard
  of another option type, and some \<^verbatim>\<open>Merge\<close> value satisfies a second guard as well.
\<close>

theorem GitUtils_guards_do_not_partition:
  "((isBranchRename arg = Inr True) = (ToBoolean arg \<and> contains_key arg ''newName''))
   \<and> ((isBranchDelete arg = Inr True) = (ToBoolean arg \<and> contains_key arg ''toDelete''))
   \<and> ((isBranchCreate arg = Inr True) = (ToBoolean arg \<and> contains_key arg ''toCreate''))
   \<and> ((isBranchList arg = Inr True) = (ToBoolean arg \<and> contains_key arg ''type''))
   \<and> ((isBranchCheckout arg = Inr True) = (ToBoolean arg \<and> contains_key arg ''branch''))
   \<and> ((isWorkingTreeFileCheckout arg = Inr True) =
        (ToBoolean arg \<and> contains_key arg ''paths''))
   \<and> isBranchRename JUndefined = Inr False
   \<and> isBranchDelete JUndefined = Inr False
   \<and> isBranchCreate JUndefined = Inr False
   \<and> isBranchList JUndefined = Inr False
   \<and> isBranchCheckout JUndefined = Inr False
   \<and> isWorkingTreeFileCheckout JUndefined = Inr False
   \<and> (k1 \<in> set (map fst guards) \<and> k2 \<in> set (map fst guards) \<and> k1 \<noteq> k2 \<and>
        contains_key (JObject ob) k1 \<and> contains_key (JObject ob) k2 \<longrightarrow>
        2 \<le> length (accepting (JObject ob)))
   \<and> (\<exists>v. 2 \<le> length (accepting v))
   \<and> (conforms_to_Merge m \<longrightarrow> isBranchCheckout m = Inr True)
   \<and> (\<exists>v. conforms_to_Merge v \<and> 2 \<le> length (accepting v))"
proof -
  have chars:
    "(isBranchRename arg = Inr True) = (ToBoolean arg \<and> contains_key arg ''newName'')"
    "(isBranchDelete arg = Inr True) = (ToBoolean arg \<and> contains_key arg ''toDelete'')"
    "(isBranchCreate arg = Inr True) = (ToBoolean arg \<and> contains_key arg ''toCreate'')"
    "(isBranchList arg = Inr True) = (ToBoolean arg \<and> contains_key arg ''type'')"
    "(isBranchCheckout arg = Inr True) = (ToBoolean arg \<and> contains_key arg ''branch'')"
    "(isWorkingTreeFileCheckout arg = Inr True) =
       (ToBoolean arg \<and> contains_key arg ''paths'')"
    unfolding isBranchRename_def isBranchDelete_def isBranchCreate_def isBranchList_def
      isBranchCheckout_def isWorkingTreeFileCheckout_def
    by (rule guard_returns_true_iff)+
  have undef:
    "isBranchRename JUndefined = Inr False" "isBranchDelete JUndefined = Inr False"
    "isBranchCreate JUndefined = Inr False" "isBranchList JUndefined = Inr False"
    "isBranchCheckout JUndefined = Inr False"
    "isWorkingTreeFileCheckout JUndefined = Inr False"
    by (simp_all add: isBranchRename_def isBranchDelete_def isBranchCreate_def
        isBranchList_def isBranchCheckout_def isWorkingTreeFileCheckout_def)
  have pair:
    "k1 \<in> set (map fst guards) \<and> k2 \<in> set (map fst guards) \<and> k1 \<noteq> k2 \<and>
       contains_key (JObject ob) k1 \<and> contains_key (JObject ob) k2 \<longrightarrow>
     2 \<le> length (accepting (JObject ob))"
    using two_keys_two_guards [of k1 k2 ob] by blast
  have "2 \<le> length (accepting
      (JObject (JObj [''Object''] [(''toCreate'', JString ''b''), (''branch'', JString ''b'')])))"
    by (simp add: accepting_object guards_def)
  then have ex: "\<exists>v. 2 \<le> length (accepting v)"
    by blast
  have merge: "conforms_to_Merge m \<longrightarrow> isBranchCheckout m = Inr True"
    using Merge_value_isBranchCheckout [of m] by blast
  have "conforms_to_Merge
      (JObject (JObj [''Object''] [(''branch'', JString ''b''), (''paths'', JString ''p'')]))
    \<and> 2 \<le> length (accepting
      (JObject (JObj [''Object''] [(''branch'', JString ''b''), (''paths'', JString ''p'')])))"
    by (simp add: accepting_object guards_def)
  then have ex_merge: "\<exists>v. conforms_to_Merge v \<and> 2 \<le> length (accepting v)"
    by blast
  from chars undef pair ex merge ex_merge show ?thesis
    by (intro conjI)
qed

theorem GitUtils_guards_do_not_partition_witness:
  "2 \<le> length (accepting (JObject (JObj [''Object'']
      [(''toCreate'', JString ''topic''), (''branch'', JString ''topic'')])))
   \<and> isBranchCreate (JObject (JObj [''Object'']
      [(''toCreate'', JString ''topic''), (''branch'', JString ''topic'')])) = Inr True
   \<and> isBranchCheckout (JObject (JObj [''Object'']
      [(''toCreate'', JString ''topic''), (''branch'', JString ''topic'')])) = Inr True
   \<and> conforms_to_Merge (JObject (JObj [''Object''] [(''branch'', JString ''master'')]))
   \<and> isBranchCheckout (JObject (JObj [''Object''] [(''branch'', JString ''master'')])) =
       Inr True"
  using GitUtils_guards_do_not_partition
      [of "JObject (JObj [''Object'']
             [(''toCreate'', JString ''topic''), (''branch'', JString ''topic'')])"
          "''toCreate''" "''branch''"
          "JObj [''Object''] [(''toCreate'', JString ''topic''), (''branch'', JString ''topic'')]"
          "JObject (JObj [''Object''] [(''branch'', JString ''master'')])"]
  by (simp add: guards_def)

section \<open>The task backend module: the task factory\<close>

text \<open>
  The container module of the task extension (it follows the Git interface in
  \<^verbatim>\<open>packages/git/src/common/git.ts\<close>, lines 625 to 673) wires the services with an
  inversify container. Of the container the model keeps what the module uses: bindings
  of a service identifier, looked up in the container itself and, when it has none for
  that identifier, in its parent.

  Objects are held by reference: a \<open>ref\<close> is the identity of an object on the heap, and
  \<^verbatim>\<open>toConstantValue(options)\<close> stores the reference it is given.
\<close>

type_synonym ref = nat

datatype service_identifier =
    TaskManager_id
  | ITaskServer_id
  | Task_id
  | TaskWatcher_id
  | ILogger_id
  | ConnectionHandler_id
  | TaskFactory_id
  | TaskOptions_id

datatype binding_scope = Singleton | Transient

datatype binding =
    ToSelf binding_scope
  | To string binding_scope
  | ToDynamicValue binding_scope
  | ToFactory
  | ToConstantValue ref

datatype container =
  Container (defaultScope: binding_scope)
    (bindings: "(service_identifier \<times> binding) list") (parent: "container option")

text \<open>
  A lookup fails when no container on the way up binds the identifier, or when the nearest
  one that binds it binds it more than once. \<open>NotModelled\<close> marks the resolutions this
  model leaves out, because the module never asks for them: a \<^verbatim>\<open>TaskOptions\<close> that is not
  a constant value, and a \<^verbatim>\<open>Task\<close> bound otherwise than to itself in transient scope (a
  singleton would need the container's cache of instances).
\<close>

datatype inversify_error =
    NoMatchingBindings service_identifier
  | AmbiguousMatch service_identifier
  | NotModelled service_identifier

definition new_Container :: "binding_scope \<Rightarrow> container" where
  "new_Container sc = Container sc [] None"

text \<open>\<^verbatim>\<open>child.parent = ctx.container\<close>\<close>

fun set_parent :: "container \<Rightarrow> container \<Rightarrow> container" where
  "set_parent (Container sc bs p) q = Container sc bs (Some q)"

fun bind :: "container \<Rightarrow> service_identifier \<Rightarrow> binding \<Rightarrow> container" where
  "bind (Container sc bs p) sid b = Container sc (bs @ [(sid, b)]) p"

fun getBindings :: "container \<Rightarrow> service_identifier \<Rightarrow> binding list" where
  "getBindings (Container sc bs None) sid = map snd (filter (\<lambda>(k, b). k = sid) bs)"
| "getBindings (Container sc bs (Some q)) sid =
     (case map snd (filter (\<lambda>(k, b). k = sid) bs) of
        [] \<Rightarrow> getBindings q sid
      | found \<Rightarrow> found)"

text \<open>
  Modelled from the spec: the class \<^verbatim>\<open>Task\<close> of \<^verbatim>\<open>./task\<close> is missing. A task's
  configuration is the options structure "supplied at construction" (section 3). Of an
  instance the model keeps the one thing the factory decides: the options value that the
  container injects into the constructor for the \<^verbatim>\<open>TaskOptions\<close> dependency.
\<close>

record task =
  task_options :: ref

definition resolve_TaskOptions :: "container \<Rightarrow> inversify_error + ref" where
  "resolve_TaskOptions c =
     (case getBindings c TaskOptions_id of
        [] \<Rightarrow> Inl (NoMatchingBindings TaskOptions_id)
      | [ToConstantValue r] \<Rightarrow> Inr r
      | [b] \<Rightarrow> Inl (NotModelled TaskOptions_id)
      | b # b' # bs \<Rightarrow> Inl (AmbiguousMatch TaskOptions_id))"

text \<open>
  \<^verbatim>\<open>child.get(Task)\<close>: \<^verbatim>\<open>Task\<close> is bound to itself in transient scope, so every call
  constructs an instance, and its dependencies are resolved from the container that was
  asked.
\<close>

definition get_Task :: "container \<Rightarrow> inversify_error + task" where
  "get_Task c =
     (case getBindings c Task_id of
        [] \<Rightarrow> Inl (NoMatchingBindings Task_id)
      | [ToSelf Transient] \<Rightarrow>
          (case resolve_TaskOptions c of
             Inl e \<Rightarrow> Inl e
           | Inr r \<Rightarrow> Inr \<lparr>task_options = r\<rparr>)
      | [b] \<Rightarrow> Inl (NotModelled Task_id)
      | b # b' # bs \<Rightarrow> Inl (AmbiguousMatch Task_id))"

text \<open>The bindings the module adds to the container it is loaded into, in its order.\<close>

definition task_backend_module :: "container \<Rightarrow> container" where
  "task_backend_module c =
     bind (bind (bind (bind (bind (bind (bind c
       TaskManager_id (ToSelf Singleton))
       ITaskServer_id (To ''TaskServer'' Singleton))
       Task_id (ToSelf Transient))
       TaskWatcher_id (ToSelf Singleton))
       ILogger_id (ToDynamicValue Singleton))
       ConnectionHandler_id (ToDynamicValue Singleton))
       TaskFactory_id ToFactory"

text \<open>
  The factory bound to \<^verbatim>\<open>TaskFactory\<close>:
  \<^verbatim>\<open>const child = new Container({ defaultScope: 'Singleton' }); child.parent = ctx.container;
  child.bind(TaskOptions).toConstantValue(options); return child.get(Task);\<close>
\<close>

definition TaskFactory_child :: "container \<Rightarrow> ref \<Rightarrow> container" where
  "TaskFactory_child ctx options =
     bind (set_parent (new_Container Singleton) ctx) TaskOptions_id (ToConstantValue options)"

definition TaskFactory_create :: "container \<Rightarrow> ref \<Rightarrow> inversify_error + task" where
  "TaskFactory_create ctx options = get_Task (TaskFactory_child ctx options)"

text \<open>
  Option objects live on the heap. The type \<^verbatim>\<open>TaskOptions\<close> comes from the missing
  \<^verbatim>\<open>./task\<close>, so an object is kept as its fields by name; a field holds a string or a
  reference to another object (an arguments array, an environment), which two objects may
  share.
\<close>

datatype hvalue = HString string | HRef ref

type_synonym hobject = "string \<Rightarrow> hvalue option"

type_synonym heap = "ref \<Rightarrow> hobject option"

text \<open>
  What is read from an object along a path of field names: the empty path gives the
  object itself, a reference is followed, and a path that leaves the objects gives
  nothing.
\<close>

fun reachable_value :: "heap \<Rightarrow> ref \<Rightarrow> string list \<Rightarrow> hvalue option" where
  "reachable_value h r [] = Some (HRef r)"
| "reachable_value h r (f # fs) =
     (case h r of
        None \<Rightarrow> None
      | Some ob \<Rightarrow>
          (case ob f of
             None \<Rightarrow> None
           | Some (HRef r') \<Rightarrow> reachable_value h r' fs
           | Some (HString x) \<Rightarrow> if fs = [] then Some (HString x) else None))"

text \<open>The assignment \<^verbatim>\<open>object.field = value\<close>, on the object a reference stands for.\<close>

definition assign :: "heap \<Rightarrow> ref \<Rightarrow> string \<Rightarrow> hvalue \<Rightarrow> heap" where
  "assign h r f v = (case h r of None \<Rightarrow> h | Some ob \<Rightarrow> h(r \<mapsto> ob(f \<mapsto> v)))"

text \<open>The configuration a task has: what is read from its options value.\<close>

definition task_configuration :: "heap \<Rightarrow> task \<Rightarrow> string list \<Rightarrow> hvalue option" where
  "task_configuration h t path = reachable_value h (task_options t) path"

lemma getBindings_child:
  "getBindings (TaskFactory_child ctx r) sid =
     (if sid = TaskOptions_id then [ToConstantValue r] else getBindings ctx sid)"
  by (simp add: TaskFactory_child_def new_Container_def)

lemma resolve_TaskOptions_child: "resolve_TaskOptions (TaskFactory_child ctx r) = Inr r"
  by (simp add: resolve_TaskOptions_def getBindings_child)

lemma TaskFactory_create_value:
  "getBindings ctx Task_id = [ToSelf Transient] \<Longrightarrow>
   TaskFactory_create ctx r = Inr \<lparr>task_options = r\<rparr>"
  by (simp add: TaskFactory_create_def get_Task_def resolve_TaskOptions_child getBindings_child)

lemma getBindings_module_Task:
  "getBindings (task_backend_module (new_Container Transient)) Task_id = [ToSelf Transient]"
  by (simp add: task_backend_module_def new_Container_def)

lemma read_assigned_field:
  "h r = Some ob \<Longrightarrow> reachable_value (assign h r f v) r [f] = Some v"
  by (cases v) (simp_all add: assign_def)

text \<open>
  Claim C1, as the code has it. \<^verbatim>\<open>TaskFactory.create(options)\<close> resolves the task from a
  child container whose parent is the module's container and whose one binding of its
  own is \<^verbatim>\<open>TaskOptions\<close>, bound to the caller's options object itself: the reference, not a
  copy. The task is given that object. So when the caller passes the identical object to
  two calls, the option values of the two tasks are that same object: in every heap each
  task reads what the caller's object reads, and after the caller has assigned to a field
  of the object both tasks read the new value.
\<close>

theorem TaskFactory_create_binds_the_callers_object:
  assumes "getBindings ctx Task_id = [ToSelf Transient]"
  shows "bindings (TaskFactory_child ctx r) = [(TaskOptions_id, ToConstantValue r)]
    \<and> parent (TaskFactory_child ctx r) = Some ctx
    \<and> resolve_TaskOptions (TaskFactory_child ctx r) = Inr r
    \<and> TaskFactory_create ctx r = Inr \<lparr>task_options = r\<rparr>
    \<and> (TaskFactory_create ctx r = Inr t1 \<and> TaskFactory_create ctx r = Inr t2 \<longrightarrow>
         task_options t1 = r \<and> task_options t2 = r
         \<and> task_configuration h t1 path = reachable_value h r path
         \<and> task_configuration h t2 path = reachable_value h r path
         \<and> (h r = Some ob \<longrightarrow>
              task_configuration (assign h r f v) t1 [f] = Some v
              \<and> task_configuration (assign h r f v) t2 [f] = Some v))"
proof -
  have child: "bindings (TaskFactory_child ctx r) = [(TaskOptions_id, ToConstantValue r)]"
    "parent (TaskFactory_child ctx r) = Some ctx"
    by (simp_all add: TaskFactory_child_def new_Container_def)
  note create = TaskFactory_create_value [OF assms, of r]
  have shared: "TaskFactory_create ctx r = Inr t1 \<and> TaskFactory_create ctx r = Inr t2 \<longrightarrow>
         task_options t1 = r \<and> task_options t2 = r
         \<and> task_configuration h t1 path = reachable_value h r path
         \<and> task_configuration h t2 path = reachable_value h r path
         \<and> (h r = Some ob \<longrightarrow>
              task_configuration (assign h r f v) t1 [f] = Some v
              \<and> task_configuration (assign h r f v) t2 [f] = Some v)"
  proof (intro impI, elim conjE)
    assume "TaskFactory_create ctx r = Inr t1" and "TaskFactory_create ctx r = Inr t2"
    with create have t: "t1 = \<lparr>task_options = r\<rparr>" "t2 = \<lparr>task_options = r\<rparr>"
      by simp_all
    show "task_options t1 = r \<and> task_options t2 = r
         \<and> task_configuration h t1 path = reachable_value h r path
         \<and> task_configuration h t2 path = reachable_value h r path
         \<and> (h r = Some ob \<longrightarrow>
              task_configuration (assign h r f v) t1 [f] = Some v
              \<and> task_configuration (assign h r f v) t2 [f] = Some v)"
      unfolding t task_configuration_def
      using read_assigned_field [of h r ob f v] by simp
  qed
  from child resolve_TaskOptions_child [of ctx r] create shared show ?thesis
    by (intro conjI)
qed

theorem TaskFactory_create_binds_the_callers_object_witness:
  "getBindings (task_backend_module (new_Container Transient)) Task_id = [ToSelf Transient]
   \<and> TaskFactory_create (task_backend_module (new_Container Transient)) 0 =
       Inr \<lparr>task_options = 0\<rparr>
   \<and> [0 \<mapsto> [''command'' \<mapsto> HString ''echo'']] 0 = Some [''command'' \<mapsto> HString ''echo'']
   \<and> task_configuration
       (assign [0 \<mapsto> [''command'' \<mapsto> HString ''echo'']] 0 ''command'' (HString ''rm''))
       \<lparr>task_options = 0\<rparr> [''command''] = Some (HString ''rm'')"
  using TaskFactory_create_binds_the_callers_object
      [OF getBindings_module_Task,
        of 0 "\<lparr>task_options = 0\<rparr>" "\<lparr>task_options = 0\<rparr>"
          "[0 \<mapsto> [''command'' \<mapsto> HString ''echo'']]" "[''command'']"
          "[''command'' \<mapsto> HString ''echo'']" "''command''" "HString ''rm''"]
    getBindings_module_Task
  by simp

text \<open>
  Claim C1, as the specification words it, fails. Every call with the options object at
  reference 0 gives a task whose options value is that object, so two such calls give two
  tasks that hold the one object; the scope the task is resolved from holds it too. After
  the caller has assigned \<^verbatim>\<open>options.command = 'rm'\<close>, the configuration of those tasks reads
  \<^verbatim>\<open>rm\<close> where it read \<^verbatim>\<open>echo\<close>.
\<close>

theorem TaskFactory_create_shares_the_callers_object:
  "TaskFactory_create (task_backend_module (new_Container Transient)) 0 =
     Inr \<lparr>task_options = 0\<rparr>
   \<and> resolve_TaskOptions (TaskFactory_child (task_backend_module (new_Container Transient)) 0) =
     Inr 0
   \<and> task_configuration [0 \<mapsto> [''command'' \<mapsto> HString ''echo'']]
       \<lparr>task_options = 0\<rparr> [''command''] = Some (HString ''echo'')
   \<and> task_configuration
       (assign [0 \<mapsto> [''command'' \<mapsto> HString ''echo'']] 0 ''command'' (HString ''rm''))
       \<lparr>task_options = 0\<rparr> [''command''] = Some (HString ''rm'')
   \<and> task_configuration
       (assign [0 \<mapsto> [''command'' \<mapsto> HString ''echo'']] 0 ''command'' (HString ''rm''))
       \<lparr>task_options = 0\<rparr> [''command''] \<noteq>
     task_configuration [0 \<mapsto> [''command'' \<mapsto> HString ''echo'']]
       \<lparr>task_options = 0\<rparr> [''command'']"
  by (simp add: TaskFactory_create_value getBindings_module_Task resolve_TaskOptions_child
      task_configuration_def assign_def)

text \<open>
  Nothing is copied at any depth. Two different option objects (references 0 and 1)
  that share one arguments array (reference 2) give two tasks, and an assignment to the
  array shows in the configuration of both.
\<close>

lemma shared_arguments_array_is_seen_by_both_tasks:
  "TaskFactory_create (task_backend_module (new_Container Transient)) 0 =
     Inr \<lparr>task_options = 0\<rparr>
   \<and> TaskFactory_create (task_backend_module (new_Container Transient)) 1 =
     Inr \<lparr>task_options = 1\<rparr>
   \<and> task_configuration
       (assign [0 \<mapsto> [''args'' \<mapsto> HRef 2], 1 \<mapsto> [''args'' \<mapsto> HRef 2],
                2 \<mapsto> [''0'' \<mapsto> HString ''hi'']] 2 ''0'' (HString ''bye''))
       \<lparr>task_options = 0\<rparr> [''args'', ''0''] = Some (HString ''bye'')
   \<and> task_configuration
       (assign [0 \<mapsto> [''args'' \<mapsto> HRef 2], 1 \<mapsto> [''args'' \<mapsto> HRef 2],
                2 \<mapsto> [''0'' \<mapsto> HString ''hi'']] 2 ''0'' (HString ''bye''))
       \<lparr>task_options = 1\<rparr> [''args'', ''0''] = Some (HString ''bye'')"
  by (simp add: TaskFactory_create_value getBindings_module_Task task_configuration_def
      assign_def)

section \<open>The task backend module: the connection handler\<close>

text \<open>
  The handler bound to \<^verbatim>\<open>ConnectionHandler\<close> is called with the client proxy of every new
  connection:
  \<^verbatim>\<open>taskServer.setClient(client);
  client.onDidCloseConnection(() => { taskServer.disconnectClient(client); });
  return taskServer;\<close>
  The task server is a singleton, so every call goes to the one server; the model records
  the calls made on it, in order. \<^verbatim>\<open>onDidCloseConnection\<close> registers a listener with the
  proxy, and the transport runs the listeners of a proxy, in the order of registration,
  when its connection closes. The listener registered here is a closure over \<^verbatim>\<open>client\<close>.
\<close>

type_synonym client = nat

datatype server_call = SetClient client | DisconnectClient client

datatype listener = Cleanup client

record wiring =
  server_calls :: "server_call list"
  closeListeners :: "client \<Rightarrow> listener list"

definition no_connections :: wiring where
  "no_connections = \<lparr>server_calls = [], closeListeners = (\<lambda>c. [])\<rparr>"

definition onDidCloseConnection :: "wiring \<Rightarrow> client \<Rightarrow> listener \<Rightarrow> wiring" where
  "onDidCloseConnection w c l = w\<lparr>closeListeners := (closeListeners w)(c := closeListeners w c @ [l])\<rparr>"

definition call :: "wiring \<Rightarrow> server_call \<Rightarrow> wiring" where
  "call w x = w\<lparr>server_calls := server_calls w @ [x]\<rparr>"

definition targetFactory :: "wiring \<Rightarrow> client \<Rightarrow> wiring" where
  "targetFactory w client = onDidCloseConnection (call w (SetClient client)) client (Cleanup client)"

fun invoke :: "wiring \<Rightarrow> listener \<Rightarrow> wiring" where
  "invoke w (Cleanup client) = call w (DisconnectClient client)"

definition fireDidCloseConnection :: "wiring \<Rightarrow> client \<Rightarrow> wiring" where
  "fireDidCloseConnection w c = foldl invoke w (closeListeners w c)"

text \<open>What the transport reports: a new connection with its proxy, or the close of one.\<close>

datatype transport_event = Connected client | Closed client

fun on_transport :: "wiring \<Rightarrow> transport_event \<Rightarrow> wiring" where
  "on_transport w (Connected c) = targetFactory w c"
| "on_transport w (Closed c) = fireDidCloseConnection w c"

definition transport :: "transport_event list \<Rightarrow> wiring" where
  "transport evs = foldl on_transport no_connections evs"

text \<open>
  The calls of the log carried out on a server, whose two operations are parameters:
  the server's class is not among these files.
\<close>

fun perform ::
  "('s \<Rightarrow> client \<Rightarrow> 's) \<Rightarrow> ('s \<Rightarrow> client \<Rightarrow> 's) \<Rightarrow> 's \<Rightarrow> server_call \<Rightarrow> 's" where
  "perform setClient disconnectClient s (SetClient c) = setClient s c"
| "perform setClient disconnectClient s (DisconnectClient c) = disconnectClient s c"

lemma foldl_invoke_calls:
  "server_calls (foldl invoke w ls) =
     server_calls w @ map (\<lambda>l. case l of Cleanup c \<Rightarrow> DisconnectClient c) ls"
proof (induction ls arbitrary: w)
  case Nil
  show ?case by simp
next
  case (Cons l ls)
  show ?case
    by (cases l) (simp add: Cons.IH call_def)
qed

lemma foldl_invoke_listeners: "closeListeners (foldl invoke w ls) = closeListeners w"
proof (induction ls arbitrary: w)
  case Nil
  show ?case by simp
next
  case (Cons l ls)
  show ?case
    by (cases l) (simp add: Cons.IH call_def)
qed

lemma transport_snoc: "transport (evs @ [e]) = on_transport (transport evs) e"
  by (simp add: transport_def)

lemma closeListeners_transport:
  "closeListeners (transport evs) c =
     replicate (length (filter (\<lambda>e. e = Connected c) evs)) (Cleanup c)"
proof (induction evs rule: rev_induct)
  case Nil
  show ?case by (simp add: transport_def no_connections_def)
next
  case (snoc e evs)
  show ?case
  proof (cases e)
    case (Connected d)
    with snoc show ?thesis
      by (auto simp: transport_snoc targetFactory_def onDidCloseConnection_def call_def
          replicate_append_same)
  next
    case (Closed d)
    with snoc show ?thesis
      by (simp add: transport_snoc fireDidCloseConnection_def foldl_invoke_listeners)
  qed
qed

lemma server_calls_Closed:
  "server_calls (transport (evs @ [Closed c])) =
     server_calls (transport evs) @
     replicate (length (filter (\<lambda>e. e = Connected c) evs)) (DisconnectClient c)"
  by (simp add: transport_snoc fireDidCloseConnection_def foldl_invoke_calls
      closeListeners_transport)

text \<open>
  Claim C7. When the transport reports that the connection of a client has closed, the
  calls made on the task server are \<^verbatim>\<open>disconnectClient\<close> with that same client handle,
  once for every time the handler was given that client, and nothing else. In particular
  a client that went through the handler is disconnected on close, and for a client
  connected once the server ends in the state its own \<^verbatim>\<open>disconnectClient\<close> gives: the
  close runs the server's one detach operation.
\<close>

theorem close_invokes_disconnectClient:
  "server_calls (transport (evs @ [Closed c])) =
     server_calls (transport evs) @
     replicate (length (filter (\<lambda>e. e = Connected c) evs)) (DisconnectClient c)
   \<and> (Connected c \<in> set evs \<longrightarrow>
        DisconnectClient c \<in> set (drop (length (server_calls (transport evs)))
          (server_calls (transport (evs @ [Closed c])))))
   \<and> (Connected c \<notin> set evs \<longrightarrow>
        foldl (perform setClient disconnectClient) s
          (server_calls (transport (evs @ [Connected c, Closed c]))) =
        disconnectClient
          (setClient (foldl (perform setClient disconnectClient) s
             (server_calls (transport evs))) c) c)"
proof (intro conjI impI)
  show "server_calls (transport (evs @ [Closed c])) =
     server_calls (transport evs) @
     replicate (length (filter (\<lambda>e. e = Connected c) evs)) (DisconnectClient c)"
    by (rule server_calls_Closed)
next
  assume "Connected c \<in> set evs"
  then have "filter (\<lambda>e. e = Connected c) evs \<noteq> []"
    by (simp add: filter_empty_conv)
  then have "0 < length (filter (\<lambda>e. e = Connected c) evs)"
    by simp
  then show "DisconnectClient c \<in> set (drop (length (server_calls (transport evs)))
          (server_calls (transport (evs @ [Closed c]))))"
    by (simp add: server_calls_Closed)
next
  assume fresh: "Connected c \<notin> set evs"
  then have none: "filter (\<lambda>e. e = Connected c) evs = []"
    by (auto simp: filter_empty_conv)
  have "server_calls (transport (evs @ [Connected c, Closed c])) =
      server_calls (transport evs) @ [SetClient c, DisconnectClient c]"
    using server_calls_Closed [of "evs @ [Connected c]" c] none
    by (simp add: transport_snoc targetFactory_def onDidCloseConnection_def call_def)
  then show "foldl (perform setClient disconnectClient) s
          (server_calls (transport (evs @ [Connected c, Closed c]))) =
        disconnectClient
          (setClient (foldl (perform setClient disconnectClient) s
             (server_calls (transport evs))) c) c"
    by simp
qed

theorem close_invokes_disconnectClient_witness:
  "Connected 3 \<in> set [Connected 2, Connected 3]
   \<and> server_calls (transport ([Connected 2, Connected 3] @ [Closed 3])) =
       [SetClient 2, SetClient 3, DisconnectClient 3]
   \<and> Connected 4 \<notin> set [Connected 2, Connected 3]
   \<and> foldl (perform (\<lambda>s c. insert c s) (\<lambda>s c. s - {c})) {}
       (server_calls (transport ([Connected 2, Connected 3] @ [Connected 4, Closed 4]))) =
       {2, 3}"
proof -
  have calls: "server_calls (transport [Connected 2, Connected 3]) = [SetClient 2, SetClient 3]"
    by (simp add: transport_def no_connections_def targetFactory_def onDidCloseConnection_def
        call_def)
  from close_invokes_disconnectClient
      [of "[Connected 2, Connected 3]" 3 "\<lambda>s c. insert c s" "\<lambda>s c. s - {c}" "{}"]
    close_invokes_disconnectClient
      [of "[Connected 2, Connected 3]" 4 "\<lambda>s c. insert c s" "\<lambda>s c. s - {c}" "{}"]
  show ?thesis
    by (auto simp: calls)
qed

section \<open>The task manager and the task server\<close>

text \<open>
  The module imports \<^verbatim>\<open>TaskManager\<close> from \<^verbatim>\<open>./task-manager\<close>, \<^verbatim>\<open>TaskServer\<close> from
  \<^verbatim>\<open>./task-server\<close> and \<^verbatim>\<open>Task\<close> from \<^verbatim>\<open>./task\<close>; none of the three files is at hand.
  Every definition of this section is modelled from the specification's words (sections
  3, 4.1, 4.3, 4.4, 5 and 7) and says so.
\<close>

text \<open>Modelled from the spec: the error taxonomy of section 7 (\<^verbatim>\<open>./task-protocol\<close> is missing).\<close>

datatype task_error = InvalidTaskOptions | SpawnError | TaskNotFound

text \<open>Modelled from the spec: the states of a task, section 3 (\<^verbatim>\<open>./task\<close> is missing).\<close>

datatype lifecycle = Created | Running | Exited

text \<open>
  Modelled from the spec: the class \<^verbatim>\<open>Task\<close> of \<^verbatim>\<open>./task\<close> is missing. A task has a state,
  one of Created, Running, Exited, and owns its process. \<^verbatim>\<open>Kill\<close> is a best-effort
  request to terminate the process: it succeeds also when the process has exited, and it
  is advisory, the state changes only when the operating system confirms the exit.
\<close>

record managed_task =
  lifecycle_state :: lifecycle
  termination_requested :: bool

text \<open>
  Modelled from the spec: \<^verbatim>\<open>Task.Kill\<close> of the missing \<^verbatim>\<open>./task\<close>, the request for
  termination; the state is left to the exit notification.
\<close>

definition Task_Kill :: "managed_task \<Rightarrow> managed_task" where
  "Task_Kill t = t\<lparr>termination_requested := True\<rparr>"

text \<open>
  Modelled from the spec: the class \<^verbatim>\<open>TaskManager\<close> of \<^verbatim>\<open>./task-manager\<close> is missing. The
  registry maps task ids to tasks, is append-only and keeps the order of creation.
  \<^verbatim>\<open>register(task)\<close> assigns the next monotonically increasing id, stores the mapping and
  returns the id (the first id is 1, as in the scenario of section 8); \<^verbatim>\<open>get(id)\<close> returns
  the task of a known id or fails with \<^verbatim>\<open>TaskNotFound\<close>; \<^verbatim>\<open>all()\<close> gives every registered
  task in creation order.
\<close>

record task_manager =
  last_id :: int
  registry :: "(int \<times> managed_task) list"

text \<open>Modelled from the spec: the manager of a fresh process, nothing registered yet.\<close>

definition new_TaskManager :: task_manager where
  "new_TaskManager = \<lparr>last_id = 0, registry = []\<rparr>"

text \<open>
  Modelled from the spec: \<^verbatim>\<open>TaskManager.register\<close>, "assigns the next monotonically
  increasing id, stores the mapping, returns the id".
\<close>

definition TaskManager_register :: "task_manager \<Rightarrow> managed_task \<Rightarrow> int \<times> task_manager" where
  "TaskManager_register m t =
     (let i = last_id m + 1 in (i, \<lparr>last_id = i, registry = registry m @ [(i, t)]\<rparr>))"

text \<open>
  Modelled from the spec: \<^verbatim>\<open>TaskManager.get\<close>, "returns the Task for a known id, or fails
  with TaskNotFound if the id was never registered".
\<close>

definition TaskManager_get :: "task_manager \<Rightarrow> int \<Rightarrow> task_error + managed_task" where
  "TaskManager_get m i =
     (case map_of (registry m) i of None \<Rightarrow> Inl TaskNotFound | Some t \<Rightarrow> Inr t)"

text \<open>
  Modelled from the spec: \<^verbatim>\<open>TaskManager.all\<close>, "every registered Task, in creation order".
\<close>

definition TaskManager_all :: "task_manager \<Rightarrow> managed_task list" where
  "TaskManager_all m = map snd (registry m)"

text \<open>
  Modelled from the spec: the class \<^verbatim>\<open>TaskServer\<close> of \<^verbatim>\<open>./task-server\<close> is missing. The
  server holds the manager and the set of attached client handles.
  \<^verbatim>\<open>setClient\<close>/\<^verbatim>\<open>disconnectClient\<close> attach and detach a handle; \<^verbatim>\<open>kill(id)\<close> forwards to
  the task's \<^verbatim>\<open>Kill\<close> and fails with \<^verbatim>\<open>TaskNotFound\<close> for an unknown id, without any
  change of state; \<^verbatim>\<open>getTasks()\<close> lists id and state of every known task.
\<close>

record task_server =
  manager :: task_manager
  clients :: "client set"

text \<open>Modelled from the spec: the server at startup, no client attached.\<close>

definition new_TaskServer :: task_server where
  "new_TaskServer = \<lparr>manager = new_TaskManager, clients = {}\<rparr>"

text \<open>
  Modelled from the spec: \<^verbatim>\<open>TaskServer.setClient\<close>, "attach a client handle to the broadcast
  set".
\<close>

definition TaskServer_setClient :: "task_server \<Rightarrow> client \<Rightarrow> task_server" where
  "TaskServer_setClient s c = s\<lparr>clients := insert c (clients s)\<rparr>"

text \<open>
  Modelled from the spec: \<^verbatim>\<open>TaskServer.disconnectClient\<close>, "detach a client handle" from
  the broadcast set.
\<close>

definition TaskServer_disconnectClient :: "task_server \<Rightarrow> client \<Rightarrow> task_server" where
  "TaskServer_disconnectClient s c = s\<lparr>clients := clients s - {c}\<rparr>"

text \<open>
  Modelled from the spec: \<^verbatim>\<open>TaskServer.getTasks\<close>, "a snapshot list of {id, state} for
  every known task".
\<close>

definition TaskServer_getTasks :: "task_server \<Rightarrow> (int \<times> lifecycle) list" where
  "TaskServer_getTasks s = map (\<lambda>(i, t). (i, lifecycle_state t)) (registry (manager s))"

text \<open>
  Modelled from the spec: \<^verbatim>\<open>TaskServer.kill\<close>, "forwards to Task.Kill for the given id;
  fails with TaskNotFound if unknown", the failure with "no state mutation".
\<close>

definition TaskServer_kill :: "task_server \<Rightarrow> int \<Rightarrow> (task_error + unit) \<times> task_server" where
  "TaskServer_kill s i =
     (case TaskManager_get (manager s) i of
        Inl e \<Rightarrow> (Inl e, s)
      | Inr t \<Rightarrow>
          (Inr (),
           s\<lparr>manager := (manager s)\<lparr>registry :=
               map (\<lambda>(k, u). if k = i then (k, Task_Kill u) else (k, u))
                 (registry (manager s))\<rparr>\<rparr>))"

text \<open>
  Modelled from the spec: the calls the service takes and what it answers. The service
  is single-threaded with respect to its bookkeeping (section 5): calls that arrive
  concurrently are served one after the other, so a history of the service is the list of
  the calls in the order they were served.
\<close>

datatype request =
    Register managed_task
  | Get int
  | Kill int
  | Attach client
  | Detach client

datatype response = Registered int | Found managed_task | Failed task_error | Done

text \<open>Modelled from the spec: one call served, by the operation of its name.\<close>

fun serve :: "task_server \<Rightarrow> request \<Rightarrow> response \<times> task_server" where
  "serve s (Register t) =
     (case TaskManager_register (manager s) t of (i, m) \<Rightarrow> (Registered i, s\<lparr>manager := m\<rparr>))"
| "serve s (Get i) =
     (case TaskManager_get (manager s) i of Inl e \<Rightarrow> (Failed e, s) | Inr t \<Rightarrow> (Found t, s))"
| "serve s (Kill i) =
     (case TaskServer_kill s i of (Inl e, s') \<Rightarrow> (Failed e, s') | (Inr u, s') \<Rightarrow> (Done, s'))"
| "serve s (Attach c) = (Done, TaskServer_setClient s c)"
| "serve s (Detach c) = (Done, TaskServer_disconnectClient s c)"

text \<open>Modelled from the spec: a history served from a state, call by call.\<close>

fun serve_all :: "task_server \<Rightarrow> request list \<Rightarrow> response list \<times> task_server" where
  "serve_all s [] = ([], s)"
| "serve_all s (q # qs) =
     (case serve s q of (r, s') \<Rightarrow>
        (case serve_all s' qs of (rs, s'') \<Rightarrow> (r # rs, s'')))"

text \<open>The ids that \<^verbatim>\<open>register\<close> returned in a history, in the order of the calls.\<close>

fun returned_ids :: "response list \<Rightarrow> int list" where
  "returned_ids [] = []"
| "returned_ids (Registered i # rs) = i # returned_ids rs"
| "returned_ids (r # rs) = returned_ids rs"

fun is_Register :: "request \<Rightarrow> bool" where
  "is_Register (Register t) = True"
| "is_Register q = False"

text \<open>The ids of the registry entries, in order.\<close>

definition registered_ids :: "task_server \<Rightarrow> int list" where
  "registered_ids s = map fst (registry (manager s))"

text \<open>
  The registry is in order when its ids increase strictly and none exceeds the last id
  given out.
\<close>

definition in_order :: "task_server \<Rightarrow> bool" where
  "in_order s =
     (sorted_wrt (<) (registered_ids s) \<and> list_all (\<lambda>i. i \<le> last_id (manager s)) (registered_ids s))"

lemma serve_ids:
  "serve s q = (r, s') \<Longrightarrow>
   registered_ids s' = registered_ids s @ returned_ids [r]
   \<and> last_id (manager s) \<le> last_id (manager s')
   \<and> list_all (\<lambda>i. last_id (manager s) < i \<and> i \<le> last_id (manager s')) (returned_ids [r])
   \<and> length (returned_ids [r]) = (if is_Register q then 1 else 0)"
  by (cases q)
    (auto simp: registered_ids_def TaskManager_register_def TaskServer_kill_def
      TaskServer_setClient_def TaskServer_disconnectClient_def Let_def comp_def case_prod_unfold
      split: sum.splits prod.splits if_splits)

lemma returned_ids_Cons: "returned_ids (r # rs) = returned_ids [r] @ returned_ids rs"
  by (cases r) simp_all

lemma serve_in_order:
  assumes "serve s q = (r, s')" and "in_order s"
  shows "in_order s'"
proof -
  note step = serve_ids [OF assms(1)]
  show ?thesis
  proof (cases r)
    case (Registered i)
    with step assms(2) show ?thesis
      by (auto simp: in_order_def sorted_wrt_append list_all_iff)
  qed (use step assms(2) in \<open>auto simp: in_order_def list_all_iff\<close>)
qed

lemma serve_all_ids:
  "serve_all s qs = (rs, s') \<Longrightarrow> in_order s \<Longrightarrow>
   registered_ids s' = registered_ids s @ returned_ids rs \<and> in_order s'
   \<and> length (returned_ids rs) = length (filter is_Register qs)"
proof (induction qs arbitrary: s rs s')
  case Nil
  then show ?case by simp
next
  case (Cons q qs)
  obtain r s1 where q: "serve s q = (r, s1)"
    by (cases "serve s q")
  obtain rs1 s2 where qs: "serve_all s1 qs = (rs1, s2)"
    by (cases "serve_all s1 qs")
  from Cons.prems(1) q qs have eq: "rs = r # rs1" "s' = s2"
    by simp_all
  have o1: "in_order s1"
    using q Cons.prems(2) by (rule serve_in_order)
  from Cons.IH [OF qs o1] serve_ids [OF q] eq show ?case
    by (simp add: returned_ids_Cons [of r rs1])
qed

lemma in_order_new_TaskServer: "in_order new_TaskServer"
  by (simp add: in_order_def registered_ids_def new_TaskServer_def new_TaskManager_def)

lemma history_ids:
  "registered_ids (snd (serve_all new_TaskServer qs)) =
     returned_ids (fst (serve_all new_TaskServer qs))
   \<and> in_order (snd (serve_all new_TaskServer qs))
   \<and> length (returned_ids (fst (serve_all new_TaskServer qs))) = length (filter is_Register qs)"
  using serve_all_ids [OF prod.collapse [symmetric] in_order_new_TaskServer, of qs]
  by (simp add: registered_ids_def new_TaskServer_def new_TaskManager_def)

lemma one_entry_of_key:
  "distinct (map fst ps) \<Longrightarrow> i \<in> fst ` set ps \<Longrightarrow> length (filter (\<lambda>e. fst e = i) ps) = 1"
proof (induction ps)
  case Nil
  then show ?case by simp
next
  case (Cons p ps)
  show ?case
  proof (cases "fst p = i")
    case True
    with Cons.prems(1) have "filter (\<lambda>e. fst e = i) ps = []"
      by (auto simp: filter_empty_conv image_iff)
    with True show ?thesis by simp
  next
    case False
    with Cons show ?thesis by auto
  qed
qed

lemma map_of_unknown_key: "i \<notin> set (map fst ps) \<Longrightarrow> map_of ps i = None"
  by (simp add: map_of_eq_None_iff)

text \<open>
  Claim C4. In every history of the service that starts with the new server, whatever
  other calls lie between the registrations, the ids returned by the \<open>N\<close> calls of
  \<^verbatim>\<open>register\<close> are \<open>N\<close> ids, strictly increasing in the order of the calls and so pairwise
  distinct: no id is given out twice. The registry holds these ids and no others, and for
  each returned id exactly one entry.
\<close>

theorem register_ids_distinct_and_increasing:
  "length (returned_ids (fst (serve_all new_TaskServer qs))) = length (filter is_Register qs)
   \<and> sorted_wrt (<) (returned_ids (fst (serve_all new_TaskServer qs)))
   \<and> distinct (returned_ids (fst (serve_all new_TaskServer qs)))
   \<and> registered_ids (snd (serve_all new_TaskServer qs)) =
       returned_ids (fst (serve_all new_TaskServer qs))
   \<and> (\<forall>i \<in> set (returned_ids (fst (serve_all new_TaskServer qs))).
        length (filter (\<lambda>e. fst e = i)
          (registry (manager (snd (serve_all new_TaskServer qs))))) = 1)"
proof -
  let ?ids = "returned_ids (fst (serve_all new_TaskServer qs))"
  let ?s = "snd (serve_all new_TaskServer qs)"
  note h = history_ids [of qs]
  from h have keys: "registered_ids ?s = ?ids" and n: "length ?ids = length (filter is_Register qs)"
    by simp_all
  from h keys have inc: "sorted_wrt (<) ?ids"
    by (simp add: in_order_def)
  then have dist: "distinct ?ids"
    by (simp add: strict_sorted_iff)
  have one: "\<forall>i \<in> set ?ids. length (filter (\<lambda>e. fst e = i) (registry (manager ?s))) = 1"
  proof
    fix i
    assume "i \<in> set ?ids"
    with keys have "i \<in> fst ` set (registry (manager ?s))"
      by (simp add: registered_ids_def [symmetric] flip: set_map)
    moreover from dist keys have "distinct (map fst (registry (manager ?s)))"
      by (simp add: registered_ids_def)
    ultimately show "length (filter (\<lambda>e. fst e = i) (registry (manager ?s))) = 1"
      by (rule one_entry_of_key [rotated])
  qed
  from n inc dist keys one show ?thesis
    by (intro conjI)
qed

theorem register_ids_distinct_and_increasing_witness:
  "returned_ids (fst (serve_all new_TaskServer
      [Register \<lparr>lifecycle_state = Created, termination_requested = False\<rparr>, Attach 3,
       Register \<lparr>lifecycle_state = Created, termination_requested = False\<rparr>, Kill 7])) = [1, 2]
   \<and> 2 \<in> set (returned_ids (fst (serve_all new_TaskServer
      [Register \<lparr>lifecycle_state = Created, termination_requested = False\<rparr>, Attach 3,
       Register \<lparr>lifecycle_state = Created, termination_requested = False\<rparr>, Kill 7])))
   \<and> length (filter (\<lambda>e. fst e = 2) (registry (manager (snd (serve_all new_TaskServer
      [Register \<lparr>lifecycle_state = Created, termination_requested = False\<rparr>, Attach 3,
       Register \<lparr>lifecycle_state = Created, termination_requested = False\<rparr>, Kill 7]))))) = 1"
proof -
  have run: "serve_all new_TaskServer
      [Register \<lparr>lifecycle_state = Created, termination_requested = False\<rparr>, Attach 3,
       Register \<lparr>lifecycle_state = Created, termination_requested = False\<rparr>, Kill 7] =
    ([Registered 1, Done, Registered 2, Failed TaskNotFound],
     \<lparr>manager = \<lparr>last_id = 2, registry =
        [(1, \<lparr>lifecycle_state = Created, termination_requested = False\<rparr>),
         (2, \<lparr>lifecycle_state = Created, termination_requested = False\<rparr>)]\<rparr>,
      clients = {3}\<rparr>)"
    by (simp add: new_TaskServer_def new_TaskManager_def TaskManager_register_def
        TaskServer_setClient_def TaskServer_kill_def TaskManager_get_def)
  from register_ids_distinct_and_increasing
      [of "[Register \<lparr>lifecycle_state = Created, termination_requested = False\<rparr>, Attach 3,
            Register \<lparr>lifecycle_state = Created, termination_requested = False\<rparr>, Kill 7]"]
  show ?thesis
    unfolding run by simp
qed

text \<open>
  Claim C5. In every state the service reaches from the new server, an id that
  \<^verbatim>\<open>register\<close> never returned is unknown: \<^verbatim>\<open>TaskManager.get(id)\<close> and \<^verbatim>\<open>TaskServer.kill(id)\<close>
  fail with \<^verbatim>\<open>TaskNotFound\<close>, and the server after the failed call is the server before
  it, registry and client set included.
\<close>

theorem unknown_id_is_TaskNotFound:
  assumes "i \<notin> set (returned_ids (fst (serve_all new_TaskServer qs)))"
  shows "TaskManager_get (manager (snd (serve_all new_TaskServer qs))) i = Inl TaskNotFound
    \<and> TaskServer_kill (snd (serve_all new_TaskServer qs)) i =
        (Inl TaskNotFound, snd (serve_all new_TaskServer qs))
    \<and> serve (snd (serve_all new_TaskServer qs)) (Get i) =
        (Failed TaskNotFound, snd (serve_all new_TaskServer qs))
    \<and> serve (snd (serve_all new_TaskServer qs)) (Kill i) =
        (Failed TaskNotFound, snd (serve_all new_TaskServer qs))"
proof -
  let ?s = "snd (serve_all new_TaskServer qs)"
  from assms history_ids [of qs] have "i \<notin> set (map fst (registry (manager ?s)))"
    by (simp add: registered_ids_def)
  then have "map_of (registry (manager ?s)) i = None"
    by (rule map_of_unknown_key)
  then have get: "TaskManager_get (manager ?s) i = Inl TaskNotFound"
    by (simp add: TaskManager_get_def)
  then have kill: "TaskServer_kill ?s i = (Inl TaskNotFound, ?s)"
    by (simp add: TaskServer_kill_def)
  from get kill show ?thesis
    by simp
qed

theorem unknown_id_is_TaskNotFound_witness:
  "99 \<notin> set (returned_ids (fst (serve_all new_TaskServer
      [Register \<lparr>lifecycle_state = Created, termination_requested = False\<rparr>, Attach 3])))
   \<and> TaskServer_kill
       \<lparr>manager = \<lparr>last_id = 1, registry =
          [(1, \<lparr>lifecycle_state = Created, termination_requested = False\<rparr>)]\<rparr>,
        clients = {3}\<rparr> 99 =
     (Inl TaskNotFound,
       \<lparr>manager = \<lparr>last_id = 1, registry =
          [(1, \<lparr>lifecycle_state = Created, termination_requested = False\<rparr>)]\<rparr>,
        clients = {3}\<rparr>)"
proof -
  have run: "serve_all new_TaskServer
      [Register \<lparr>lifecycle_state = Created, termination_requested = False\<rparr>, Attach 3] =
    ([Registered 1, Done],
     \<lparr>manager = \<lparr>last_id = 1, registry =
        [(1, \<lparr>lifecycle_state = Created, termination_requested = False\<rparr>)]\<rparr>,
      clients = {3}\<rparr>)"
    by (simp add: new_TaskServer_def new_TaskManager_def TaskManager_register_def
        TaskServer_setClient_def)
  have unknown: "99 \<notin> set (returned_ids (fst (serve_all new_TaskServer
      [Register \<lparr>lifecycle_state = Created, termination_requested = False\<rparr>, Attach 3])))"
    unfolding run by simp
  from unknown unknown_id_is_TaskNotFound [OF unknown] show ?thesis
    unfolding run by simp
qed

text \<open>
  Claim C8. \<^verbatim>\<open>TaskServer.disconnectClient\<close> is idempotent: in every server state, detaching
  a client twice gives the state that detaching it once gives, and detaching a client
  that is not attached changes nothing at all. The call answers without an error both
  times, and it never touches the registry.
\<close>

theorem disconnectClient_idempotent:
  "TaskServer_disconnectClient (TaskServer_disconnectClient s c) c =
     TaskServer_disconnectClient s c
   \<and> (c \<notin> clients s \<longrightarrow> TaskServer_disconnectClient s c = s)
   \<and> serve_all s [Detach c, Detach c] = ([Done, Done], TaskServer_disconnectClient s c)
   \<and> serve (TaskServer_disconnectClient s c) (Detach c) =
       (Done, TaskServer_disconnectClient s c)
   \<and> manager (TaskServer_disconnectClient s c) = manager s"
  by (simp add: TaskServer_disconnectClient_def)

theorem disconnectClient_idempotent_witness:
  "5 \<notin> clients \<lparr>manager = new_TaskManager, clients = {3}\<rparr>
   \<and> TaskServer_disconnectClient \<lparr>manager = new_TaskManager, clients = {3}\<rparr> 5 =
       \<lparr>manager = new_TaskManager, clients = {3}\<rparr>
   \<and> TaskServer_disconnectClient
       (TaskServer_disconnectClient \<lparr>manager = new_TaskManager, clients = {3}\<rparr> 3) 3 =
       \<lparr>manager = new_TaskManager, clients = {}\<rparr>"
  using disconnectClient_idempotent [of "\<lparr>manager = new_TaskManager, clients = {3}\<rparr>" 5]
    disconnectClient_idempotent [of "\<lparr>manager = new_TaskManager, clients = {3}\<rparr>" 3]
  by (simp add: TaskServer_disconnectClient_def)

end
